theory Spec2Isabelle
  imports Main "HOL-Library.Word" "HOL-Library.Sublist"
begin

section \<open>The log transfer plugin of mavros\_extras\<close>

text \<open>
  A shallow embedding of \<^verbatim>\<open>mavros_extras/src/plugins/log_transfer.cpp\<close>.
  The class \<^verbatim>\<open>LogTransferPlugin\<close> owns two mutable members, the session flag
  \<^verbatim>\<open>state\<close> and the stack \<^verbatim>\<open>logListItems\<close>; every member function is modelled
  as a function that takes the plugin and returns the plugin it leaves behind together
  with the calls it made on its collaborators, in program order. The collaborators (the
  FCU link behind \<^verbatim>\<open>m_uas\<close>, the two action servers, the two publishers, the ROS
  console and clock) are libraries outside the plugin: what they answer is an input of
  the handler, what the plugin asks them to do is an entry of the call list.
\<close>

subsection \<open>Plugin members\<close>

text \<open>\<^verbatim>\<open>enum class State\<close>, lines 40 to 44.\<close>

datatype State = Idle | GettingLogList | GettingLogData

text \<open>
  \<^verbatim>\<open>mavros_msgs::LogListItem\<close> is declared in a generated header; the plugin never
  builds or inspects a value of it, so the type is left abstract.
\<close>

typedecl LogListItem

text \<open>
  The two data members. \<^verbatim>\<open>std::stack<LogListItem> logListItems\<close> is a list with
  the top of the stack at the head.
\<close>

record LogTransferPlugin =
  state :: State
  logListItems :: "LogListItem list"

text \<open>
  The member initialisers: \<^verbatim>\<open>State state = State::Idle\<close> and a default
  constructed, hence empty, stack.
\<close>

definition initial :: LogTransferPlugin where
  "initial = \<lparr>state = Idle, logListItems = []\<rparr>"

subsection \<open>Messages\<close>

type_synonym u8 = "8 word"
type_synonym u16 = "16 word"
type_synonym u32 = "32 word"

text \<open>\<^verbatim>\<open>ros::Time\<close>, as far as the plugin uses it: a point in time.\<close>

type_synonym ros_time = nat

text \<open>
  The inbound MAVLink messages, with the fields the handlers read.
  \<^verbatim>\<open>LOG_DATA::data\<close> is a \<^verbatim>\<open>std::array<uint8_t, N>\<close>; its \<^verbatim>\<open>max_size()\<close>
  is the number of elements it holds, so the array is a list and the payload capacity
  \<open>N\<close> is the length of that list.
\<close>

record LOG_ENTRY =
  le_id :: u16
  le_num_logs :: u16
  le_last_log_num :: u16
  le_time_utc :: u32
  le_size :: u32

record LOG_DATA =
  ld_id :: u16
  ld_ofs :: u32
  ld_count :: u8
  ld_data :: "u8 list"

definition max_size :: "'a list \<Rightarrow> nat" where
  "max_size arr = length arr"

text \<open>The published ROS messages.\<close>

record LogEntry =
  entry_stamp :: ros_time
  entry_id :: u16
  entry_num_logs :: u16
  entry_last_log_num :: u16
  entry_time_utc :: u32
  entry_size :: u32

record LogData =
  data_stamp :: ros_time
  data_id :: u16
  data_offset :: u32
  data_bytes :: "u8 list"

text \<open>The service requests and the one field every service response has.\<close>

record LogRequestList_Request =
  req_start :: u16
  req_end :: u16

record LogRequestData_Request =
  req_id :: u16
  req_offset :: u32
  req_count :: u32

record Response =
  success :: bool

text \<open>
  The outbound MAVLink commands. The first two fields of each are the target system and
  component that \<^verbatim>\<open>msg_set_target\<close> fills in.
\<close>

datatype mavlink_message =
    LOG_REQUEST_LIST u8 u8 u16 u16
  | LOG_REQUEST_DATA u8 u8 u16 u32 u32
  | LOG_REQUEST_END u8 u8

subsection \<open>Collaborators\<close>

text \<open>
  \<^verbatim>\<open>m_uas\<close>: the target the commands are addressed to, and the FCU link.
  \<^verbatim>\<open>send_message\<close> either queues the message or throws
  \<^verbatim>\<open>std::length_error\<close>; which of the two happens for a message is the link's
  business, so it is a field of the collaborator.
\<close>

record UAS =
  target_system :: u8
  target_component :: u8
  link_rejects :: "mavlink_message \<Rightarrow> bool"

datatype exn = length_error

definition send_message :: "UAS \<Rightarrow> mavlink_message \<Rightarrow> exn + unit" where
  "send_message uas msg = (if link_rejects uas msg then Inl length_error else Inr ())"

text \<open>
  Modelled from the spec: the goal types of the two actions (\<^verbatim>\<open>GetLogListAction\<close>,
  \<^verbatim>\<open>GetLogAction\<close>) are declared in generated headers that are not part of the
  source; the spec gives a list goal a start and an end, a data goal an id, an offset
  and a count. The plugin only tests a goal for null.
\<close>

record GetLogListGoal =
  goal_start :: u16
  goal_end :: u16

record GetLogGoal =
  goal_id :: u16
  goal_offset :: u32
  goal_count :: u32

text \<open>
  What the two \<^verbatim>\<open>SimpleActionServer\<close>s answer while one goal callback runs. Each
  callback asks each question at most once, so one answer per question describes the
  servers completely: \<open>None\<close> is the null pointer \<^verbatim>\<open>acceptNewGoal\<close> may return.
\<close>

record ActionServers =
  list_acceptNewGoal :: "GetLogListGoal option"
  list_isPreemptRequested :: bool
  log_acceptNewGoal :: "GetLogGoal option"
  log_isActive :: bool

text \<open>
  The calls a handler makes on its collaborators. The two \<^verbatim>\<open>setPreempted\<close> calls
  carry the \<^verbatim>\<open>success\<close> field of the result and the text.
\<close>

datatype call =
    Publish_log_entry LogEntry
  | Publish_log_data LogData
  | Send_message mavlink_message
  | List_acceptNewGoal
  | List_setPreempted bool string
  | Log_acceptNewGoal
  | Log_setPreempted bool string
  | Ros_warn string
  | Ros_error string

subsection \<open>Packet handlers\<close>

text \<open>\<^verbatim>\<open>handle_log_entry\<close>, lines 99 to 110.\<close>

definition handle_log_entry ::
  "ros_time \<Rightarrow> LOG_ENTRY \<Rightarrow> LogTransferPlugin \<Rightarrow> LogTransferPlugin \<times> call list" where
  "handle_log_entry now le p =
     (p, [Publish_log_entry
            \<lparr>entry_stamp = now, entry_id = le_id le, entry_num_logs = le_num_logs le,
             entry_last_log_num = le_last_log_num le, entry_time_utc = le_time_utc le,
             entry_size = le_size le\<rparr>])"

text \<open>
  \<^verbatim>\<open>handle_log_data\<close>, lines 112 to 126. \<^verbatim>\<open>count\<close> is compared with
  \<^verbatim>\<open>max_size()\<close> after the usual promotion, that is as a number; the iterator range
  \<^verbatim>\<open>[cbegin, cbegin + count)\<close> is the first \<open>count\<close> elements.
\<close>

definition clamp_count :: "LOG_DATA \<Rightarrow> nat" where
  "clamp_count ld =
     (let count = unat (ld_count ld)
      in if count > max_size (ld_data ld) then max_size (ld_data ld) else count)"

definition log_data_msg :: "ros_time \<Rightarrow> LOG_DATA \<Rightarrow> LogData" where
  "log_data_msg now ld =
     \<lparr>data_stamp = now, data_id = ld_id ld, data_offset = ld_ofs ld,
      data_bytes = take (clamp_count ld) (ld_data ld)\<rparr>"

definition handle_log_data ::
  "ros_time \<Rightarrow> LOG_DATA \<Rightarrow> LogTransferPlugin \<Rightarrow> LogTransferPlugin \<times> call list" where
  "handle_log_data now ld p = (p, [Publish_log_data (log_data_msg now ld)])"

subsection \<open>Service callbacks\<close>

text \<open>
  Each callback returns the plugin, the \<^verbatim>\<open>bool\<close> it returns to the service host,
  the response it filled in, and its calls. The \<^verbatim>\<open>catch\<close> clause handles the one
  exception the link throws.
\<close>

type_synonym srv_result = "LogTransferPlugin \<times> bool \<times> Response \<times> call list"

text \<open>\<^verbatim>\<open>log_request_list_cb\<close>, lines 128 to 143.\<close>

definition log_request_list_cb ::
  "UAS \<Rightarrow> LogRequestList_Request \<Rightarrow> LogTransferPlugin \<Rightarrow> srv_result" where
  "log_request_list_cb uas req p =
     (let msg = LOG_REQUEST_LIST (target_system uas) (target_component uas)
                  (req_start req) (req_end req)
      in case send_message uas msg of
           Inr _ \<Rightarrow> (p, True, \<lparr>success = True\<rparr>, [Send_message msg])
         | Inl length_error \<Rightarrow> (p, True, \<lparr>success = False\<rparr>, [Send_message msg]))"

text \<open>\<^verbatim>\<open>log_request_data_cb\<close>, lines 145 to 161.\<close>

definition log_request_data_cb ::
  "UAS \<Rightarrow> LogRequestData_Request \<Rightarrow> LogTransferPlugin \<Rightarrow> srv_result" where
  "log_request_data_cb uas req p =
     (let msg = LOG_REQUEST_DATA (target_system uas) (target_component uas)
                  (req_id req) (req_offset req) (req_count req)
      in case send_message uas msg of
           Inr _ \<Rightarrow> (p, True, \<lparr>success = True\<rparr>, [Send_message msg])
         | Inl length_error \<Rightarrow> (p, True, \<lparr>success = False\<rparr>, [Send_message msg]))"

text \<open>\<^verbatim>\<open>stopLogTransfer\<close>, lines 170 to 181: the value returned and the calls.\<close>

definition stopLogTransfer :: "UAS \<Rightarrow> bool \<times> call list" where
  "stopLogTransfer uas =
     (let msg = LOG_REQUEST_END (target_system uas) (target_component uas)
      in case send_message uas msg of
           Inr _ \<Rightarrow> (True, [Send_message msg])
         | Inl length_error \<Rightarrow>
             (False, [Send_message msg,
                      Ros_error ''Failed to send LOG_REQUEST_END message'']))"

text \<open>\<^verbatim>\<open>log_request_end_cb\<close>, lines 163 to 168.\<close>

definition log_request_end_cb :: "UAS \<Rightarrow> LogTransferPlugin \<Rightarrow> srv_result" where
  "log_request_end_cb uas p =
     (let (ok, cs) = stopLogTransfer uas in (p, True, \<lparr>success = ok\<rparr>, cs))"

subsection \<open>Goal callbacks\<close>

text \<open>
  \<^verbatim>\<open>logListRequested\<close>, lines 183 to 205. The value of \<^verbatim>\<open>stopLogTransfer()\<close> is
  discarded; the assignment \<^verbatim>\<open>state = State::Idle\<close> is the only write to the flag
  in the whole file.
\<close>

definition logListRequested ::
  "UAS \<Rightarrow> ActionServers \<Rightarrow> LogTransferPlugin \<Rightarrow> LogTransferPlugin \<times> call list" where
  "logListRequested uas srv p =
     (case list_acceptNewGoal srv of
        None \<Rightarrow> (p, [List_acceptNewGoal, Ros_warn ''Null goal received for get_log_list''])
      | Some goal \<Rightarrow>
          (let cs1 = List_acceptNewGoal # snd (stopLogTransfer uas);
               cs2 = (if log_isActive srv
                      then cs1 @ [Log_setPreempted False ''Log list was requested'']
                      else cs1);
               p' = p\<lparr>state := Idle\<rparr>
           in if list_isPreemptRequested srv
              then (p', cs2 @ [List_setPreempted False ''Log list request was preempted''])
              else (p', cs2)))"

text \<open>\<^verbatim>\<open>logListRequestPreempted\<close>, lines 207 to 210: an empty body.\<close>

definition logListRequestPreempted :: "LogTransferPlugin \<Rightarrow> LogTransferPlugin \<times> call list" where
  "logListRequestPreempted p = (p, [])"

text \<open>
  \<^verbatim>\<open>logRequested\<close>, lines 212 to 226. The goal that \<^verbatim>\<open>acceptNewGoal\<close> returns
  is bound to a local and never looked at.
\<close>

definition logRequested ::
  "ActionServers \<Rightarrow> LogTransferPlugin \<Rightarrow> LogTransferPlugin \<times> call list" where
  "logRequested srv p =
     (let goal = log_acceptNewGoal srv
      in if list_isPreemptRequested srv
         then (p, [Log_acceptNewGoal,
                   List_setPreempted False ''Another log list request was accepted'']
                  @ (if log_isActive srv
                     then [Log_setPreempted False ''Log list was requested'']
                     else []))
         else (p, [Log_acceptNewGoal]))"

text \<open>\<^verbatim>\<open>logRequestPreempted\<close>, lines 228 to 229: an empty body.\<close>

definition logRequestPreempted :: "LogTransferPlugin \<Rightarrow> LogTransferPlugin \<times> call list" where
  "logRequestPreempted p = (p, [])"

subsection \<open>Dispatch\<close>

text \<open>
  The callbacks registered in \<^verbatim>\<open>initialize\<close> (lines 68 to 89) and the subscriptions
  of \<^verbatim>\<open>get_subscriptions\<close> (lines 91 to 97): one event per registered handler, with
  what the collaborators hold when it fires.
\<close>

datatype event =
    Log_entry_packet ros_time LOG_ENTRY
  | Log_data_packet ros_time LOG_DATA
  | Request_list UAS LogRequestList_Request
  | Request_data UAS LogRequestData_Request
  | Request_end UAS
  | List_goal UAS ActionServers
  | List_preempt
  | Log_goal ActionServers
  | Log_preempt

fun dispatch :: "event \<Rightarrow> LogTransferPlugin \<Rightarrow> LogTransferPlugin \<times> call list" where
  "dispatch (Log_entry_packet now le) p = handle_log_entry now le p"
| "dispatch (Log_data_packet now ld) p = handle_log_data now ld p"
| "dispatch (Request_list uas req) p =
     (case log_request_list_cb uas req p of (p', _, _, cs) \<Rightarrow> (p', cs))"
| "dispatch (Request_data uas req) p =
     (case log_request_data_cb uas req p of (p', _, _, cs) \<Rightarrow> (p', cs))"
| "dispatch (Request_end uas) p =
     (case log_request_end_cb uas p of (p', _, _, cs) \<Rightarrow> (p', cs))"
| "dispatch (List_goal uas srv) p = logListRequested uas srv p"
| "dispatch List_preempt p = logListRequestPreempted p"
| "dispatch (Log_goal srv) p = logRequested srv p"
| "dispatch Log_preempt p = logRequestPreempted p"

text \<open>The plugins the dispatcher can leave behind, starting from the constructed one.\<close>

inductive reachable :: "LogTransferPlugin \<Rightarrow> bool" where
  reachable_initial: "reachable initial"
| reachable_dispatch: "reachable p \<Longrightarrow> reachable (fst (dispatch e p))"

text \<open>
  The dispatcher runs one handler to completion before the next event: a sequence of
  events is handled in order, each handler starting from the plugin the previous one
  left.
\<close>

fun run :: "event list \<Rightarrow> LogTransferPlugin \<Rightarrow> LogTransferPlugin" where
  "run [] p = p"
| "run (e # es) p = run es (fst (dispatch e p))"

subsection \<open>Observations on call lists and flags\<close>

text \<open>The preemption reports made on the data operation and on the list operation.\<close>

fun log_reports :: "call list \<Rightarrow> (bool \<times> string) list" where
  "log_reports [] = []"
| "log_reports (Log_setPreempted ok why # cs) = (ok, why) # log_reports cs"
| "log_reports (c # cs) = log_reports cs"

fun list_reports :: "call list \<Rightarrow> (bool \<times> string) list" where
  "list_reports [] = []"
| "list_reports (List_setPreempted ok why # cs) = (ok, why) # list_reports cs"
| "list_reports (c # cs) = list_reports cs"

text \<open>The commands handed to the link, whether it took them or not.\<close>

fun sent :: "call list \<Rightarrow> mavlink_message list" where
  "sent [] = []"
| "sent (Send_message m # cs) = m # sent cs"
| "sent (c # cs) = sent cs"

text \<open>The lines written to the ROS console.\<close>

fun logged :: "call list \<Rightarrow> string list" where
  "logged [] = []"
| "logged (Ros_warn t # cs) = t # logged cs"
| "logged (Ros_error t # cs) = t # logged cs"
| "logged (c # cs) = logged cs"

definition list_active :: "LogTransferPlugin \<Rightarrow> bool" where
  "list_active p = (state p = GettingLogList)"

definition data_active :: "LogTransferPlugin \<Rightarrow> bool" where
  "data_active p = (state p = GettingLogData)"

subsection \<open>Concrete collaborators\<close>

text \<open>A link that takes every command, and one whose frame is too small for any.\<close>

definition uas_ok :: UAS where
  "uas_ok = \<lparr>target_system = 1, target_component = 1, link_rejects = (\<lambda>m. False)\<rparr>"

definition uas_full :: UAS where
  "uas_full = \<lparr>target_system = 1, target_component = 1, link_rejects = (\<lambda>m. True)\<rparr>"

text \<open>A list goal from 0 to 5 arrives while the data server has an active goal.\<close>

definition srv_list_over_data :: ActionServers where
  "srv_list_over_data =
     \<lparr>list_acceptNewGoal = Some \<lparr>goal_start = 0, goal_end = 5\<rparr>,
      list_isPreemptRequested = False,
      log_acceptNewGoal = None,
      log_isActive = True\<rparr>"

text \<open>A list goal arrives that a newer one has already displaced.\<close>

definition srv_list_superseded :: ActionServers where
  "srv_list_superseded =
     \<lparr>list_acceptNewGoal = Some \<lparr>goal_start = 0, goal_end = 5\<rparr>,
      list_isPreemptRequested = True,
      log_acceptNewGoal = None,
      log_isActive = False\<rparr>"

text \<open>A data goal (log 1, offset 0, 10 bytes) arrives, the list server being quiet.\<close>

definition srv_data_goal :: ActionServers where
  "srv_data_goal =
     \<lparr>list_acceptNewGoal = None,
      list_isPreemptRequested = False,
      log_acceptNewGoal = Some \<lparr>goal_id = 1, goal_offset = 0, goal_count = 10\<rparr>,
      log_isActive = True\<rparr>"

text \<open>The same data goal arrives while the list server has a preemption pending.\<close>

definition srv_data_goal_racing :: ActionServers where
  "srv_data_goal_racing =
     \<lparr>list_acceptNewGoal = None,
      list_isPreemptRequested = True,
      log_acceptNewGoal = Some \<lparr>goal_id = 1, goal_offset = 0, goal_count = 10\<rparr>,
      log_isActive = True\<rparr>"

text \<open>
  The data server's goal callback fires, \<^verbatim>\<open>acceptNewGoal\<close> returns the null
  pointer, and the list server has a preemption pending.
\<close>

definition srv_null_data_goal :: ActionServers where
  "srv_null_data_goal =
     \<lparr>list_acceptNewGoal = None,
      list_isPreemptRequested = True,
      log_acceptNewGoal = None,
      log_isActive = False\<rparr>"

text \<open>A data packet of a 90 byte frame that claims 200 bytes.\<close>

definition packet_200 :: LOG_DATA where
  "packet_200 = \<lparr>ld_id = 7, ld_ofs = 180, ld_count = 200, ld_data = replicate 90 0\<rparr>"

section \<open>Properties\<close>

subsection \<open>Shared facts\<close>

lemma log_reports_append: "log_reports (xs @ ys) = log_reports xs @ log_reports ys"
  by (induction xs rule: log_reports.induct) simp_all

lemma list_reports_append: "list_reports (xs @ ys) = list_reports xs @ list_reports ys"
  by (induction xs rule: list_reports.induct) simp_all

lemma sent_append: "sent (xs @ ys) = sent xs @ sent ys"
  by (induction xs rule: sent.induct) simp_all

lemma stopLogTransfer_calls:
  "snd (stopLogTransfer uas) =
     (let msg = LOG_REQUEST_END (target_system uas) (target_component uas)
      in if link_rejects uas msg
         then [Send_message msg, Ros_error ''Failed to send LOG_REQUEST_END message'']
         else [Send_message msg])"
  by (simp add: stopLogTransfer_def send_message_def Let_def)

lemma stopLogTransfer_reports:
  "log_reports (snd (stopLogTransfer uas)) = []"
  "list_reports (snd (stopLogTransfer uas)) = []"
  by (simp_all add: stopLogTransfer_calls Let_def)

lemma dispatch_unfold:
  "fst (dispatch e p) =
     (case e of List_goal uas srv \<Rightarrow> fst (logListRequested uas srv p) | _ \<Rightarrow> p)"
  by (cases e)
     (simp_all add: handle_log_entry_def handle_log_data_def log_request_list_cb_def
        log_request_data_cb_def log_request_end_cb_def logListRequestPreempted_def
        logRequested_def logRequestPreempted_def Let_def
        split: sum.splits exn.splits prod.splits)

lemma logListRequested_plugin:
  "fst (logListRequested uas srv p) =
     (case list_acceptNewGoal srv of None \<Rightarrow> p | Some goal \<Rightarrow> p\<lparr>state := Idle\<rparr>)"
  by (simp add: logListRequested_def Let_def split: option.splits)

lemma dispatch_logListItems: "logListItems (fst (dispatch e p)) = logListItems p"
  by (simp add: dispatch_unfold logListRequested_plugin split: event.splits option.splits)

lemma reachable_idle: "reachable p \<Longrightarrow> state p = Idle \<and> logListItems p = []"
proof (induction rule: reachable.induct)
  case reachable_initial
  show ?case by (simp add: initial_def)
next
  case (reachable_dispatch p e)
  then show ?case
    by (simp add: dispatch_unfold logListRequested_plugin split: event.splits option.splits)
qed

lemma reachable_run: "reachable p \<Longrightarrow> reachable (run es p)"
  by (induction es arbitrary: p) (simp_all add: reachable_dispatch)

text \<open>
  No handler assigns an active value to the flag: whatever the flag was, an event leaves
  it alone or sets it to \<open>Idle\<close>.
\<close>

lemma dispatch_flag:
  "state (fst (dispatch e p)) = state p \<or> state (fst (dispatch e p)) = Idle"
  by (simp add: dispatch_unfold logListRequested_plugin split: event.splits option.splits)

text \<open>
  The null check of \<^verbatim>\<open>logListRequested\<close> (lines 186 to 189): one warning, and
  nothing else happens.
\<close>

lemma logListRequested_null:
  "list_acceptNewGoal srv = None \<Longrightarrow>
     fst (logListRequested uas srv p) = p \<and>
     logged (snd (logListRequested uas srv p)) = [''Null goal received for get_log_list''] \<and>
     sent (snd (logListRequested uas srv p)) = [] \<and>
     list_reports (snd (logListRequested uas srv p)) = [] \<and>
     log_reports (snd (logListRequested uas srv p)) = []"
  by (simp add: logListRequested_def)

subsection \<open>Accepting a list goal\<close>

text \<open>
  Claim C1, as the spec states it: when a list goal is accepted while a data goal is
  active, the session flag is ListActive at the end of the handler. It is not: with the
  data server active and a list goal from 0 to 5 arriving that is not preempt-requested,
  the handler leaves the flag at \<open>Idle\<close>.
\<close>

theorem logListRequested_flag_not_GettingLogList:
  "list_acceptNewGoal srv_list_over_data = Some \<lparr>goal_start = 0, goal_end = 5\<rparr> \<and>
   log_isActive srv_list_over_data \<and>
   \<not> list_isPreemptRequested srv_list_over_data \<and>
   state (fst (logListRequested uas_ok srv_list_over_data initial)) = Idle \<and>
   \<not> list_active (fst (logListRequested uas_ok srv_list_over_data initial))"
  by (simp add: srv_list_over_data_def logListRequested_def list_active_def Let_def)

text \<open>
  Claim C1, amended: for every list-goal acceptance in which a data goal is active (the
  incoming goal is not null and not itself preempt-requested), exactly one preemption
  report is issued on the data operation, it carries \<open>success = false\<close> and a reason
  containing "requested", and at the end of the handler the session flag is \<open>Idle\<close>.
\<close>

theorem logListRequested_preempts_log_goal:
  assumes "list_acceptNewGoal srv = Some goal"
    and "log_isActive srv"
    and "\<not> list_isPreemptRequested srv"
  shows "length (log_reports (snd (logListRequested uas srv p))) = 1 \<and>
         list_all (\<lambda>(ok, why). \<not> ok \<and> sublist ''requested'' why)
           (log_reports (snd (logListRequested uas srv p))) \<and>
         state (fst (logListRequested uas srv p)) = Idle"
proof -
  have "sublist ''requested'' ''Log list was requested''"
    by code_simp
  with assms show ?thesis
    by (simp add: logListRequested_def Let_def log_reports_append stopLogTransfer_reports)
qed

theorem logListRequested_preempts_log_goal_witness:
  "list_acceptNewGoal srv_list_over_data = Some \<lparr>goal_start = 0, goal_end = 5\<rparr> \<and>
   log_isActive srv_list_over_data \<and>
   \<not> list_isPreemptRequested srv_list_over_data \<and>
   log_reports (snd (logListRequested uas_ok srv_list_over_data initial)) =
     [(False, ''Log list was requested'')] \<and>
   state (fst (logListRequested uas_ok srv_list_over_data initial)) = Idle"
proof -
  have h: "list_acceptNewGoal srv_list_over_data = Some \<lparr>goal_start = 0, goal_end = 5\<rparr>"
    "log_isActive srv_list_over_data"
    "\<not> list_isPreemptRequested srv_list_over_data"
    by (simp_all add: srv_list_over_data_def)
  have r: "log_reports (snd (logListRequested uas_ok srv_list_over_data initial)) =
             [(False, ''Log list was requested'')]"
    by (simp add: srv_list_over_data_def logListRequested_def Let_def
          stopLogTransfer_calls uas_ok_def)
  show ?thesis
    using h r logListRequested_preempts_log_goal [OF h, of uas_ok initial] by simp
qed

text \<open>
  Claim C4: for every list-goal acceptance where the incoming list goal is already
  preempt-requested, the goal is completed with \<open>success = false\<close> and a reason
  containing "preempted"; the session flag is \<open>Idle\<close> at the end of the handler; and the
  goal is not retained: the completion is the last call the handler makes, and the
  plugin it leaves behind is the old one with the flag at \<open>Idle\<close>, which is not the
  list-active flag and has no member that holds a goal.
\<close>

theorem logListRequested_superseded:
  assumes "list_acceptNewGoal srv = Some goal"
    and "list_isPreemptRequested srv"
  shows "length (list_reports (snd (logListRequested uas srv p))) = 1 \<and>
         list_all (\<lambda>(ok, why). \<not> ok \<and> sublist ''preempted'' why)
           (list_reports (snd (logListRequested uas srv p))) \<and>
         last (snd (logListRequested uas srv p)) =
           List_setPreempted False ''Log list request was preempted'' \<and>
         state (fst (logListRequested uas srv p)) = Idle \<and>
         fst (logListRequested uas srv p) = p\<lparr>state := Idle\<rparr> \<and>
         \<not> list_active (fst (logListRequested uas srv p))"
proof -
  have "sublist ''preempted'' ''Log list request was preempted''"
    by code_simp
  with assms show ?thesis
    by (simp add: logListRequested_def Let_def list_reports_append stopLogTransfer_reports
          list_active_def)
qed

theorem logListRequested_superseded_witness:
  "list_acceptNewGoal srv_list_superseded = Some \<lparr>goal_start = 0, goal_end = 5\<rparr> \<and>
   list_isPreemptRequested srv_list_superseded \<and>
   snd (logListRequested uas_ok srv_list_superseded initial) =
     [List_acceptNewGoal, Send_message (LOG_REQUEST_END 1 1),
      List_setPreempted False ''Log list request was preempted''] \<and>
   state (fst (logListRequested uas_ok srv_list_superseded initial)) = Idle"
proof -
  have h: "list_acceptNewGoal srv_list_superseded = Some \<lparr>goal_start = 0, goal_end = 5\<rparr>"
    "list_isPreemptRequested srv_list_superseded"
    by (simp_all add: srv_list_superseded_def)
  have r: "snd (logListRequested uas_ok srv_list_superseded initial) =
     [List_acceptNewGoal, Send_message (LOG_REQUEST_END 1 1),
      List_setPreempted False ''Log list request was preempted'']"
    by (simp add: srv_list_superseded_def logListRequested_def Let_def
          stopLogTransfer_calls uas_ok_def)
  show ?thesis
    using h r logListRequested_superseded [OF h, of uas_ok initial] by simp
qed

subsection \<open>Accepting a data goal\<close>

text \<open>
  Claim C2, as the spec states it: a data goal accepted while no list-goal preemption is
  pending ends the handler with the session flag at DataActive. It does not: from the
  constructed plugin the flag is still \<open>Idle\<close>.
\<close>

theorem logRequested_flag_not_GettingLogData:
  "\<not> list_isPreemptRequested srv_data_goal \<and>
   state (fst (logRequested srv_data_goal initial)) = Idle \<and>
   \<not> data_active (fst (logRequested srv_data_goal initial))"
  by (simp add: srv_data_goal_def logRequested_def data_active_def initial_def)

text \<open>
  Claim C2, amended: for every data-goal acceptance in which no list-goal preemption is
  pending, the handler ends with the session flag equal to its value before the handler;
  in every reachable state that value is \<open>Idle\<close>.
\<close>

theorem logRequested_keeps_flag:
  assumes "\<not> list_isPreemptRequested srv"
  shows "state (fst (logRequested srv p)) = state p \<and>
         (reachable p \<longrightarrow> state (fst (logRequested srv p)) = Idle)"
  using assms reachable_idle [of p] by (simp add: logRequested_def)

theorem logRequested_keeps_flag_witness:
  "\<not> list_isPreemptRequested srv_data_goal \<and> reachable initial \<and>
   state (fst (logRequested srv_data_goal initial)) = Idle"
proof -
  have h: "\<not> list_isPreemptRequested srv_data_goal"
    by (simp add: srv_data_goal_def)
  have r: "reachable initial"
    by (rule reachable_initial)
  show ?thesis
    using h r logRequested_keeps_flag [OF h, of initial] by (simp add: initial_def)
qed

text \<open>
  Claim C5: for every data-goal acceptance in which a list-goal preemption is pending,
  the list goal is reported preempted with \<open>success = false\<close> and the reason "Another
  log list request was accepted"; if the data server has an active goal, exactly one
  preemption report with \<open>success = false\<close> and a reason containing "list was
  requested" is issued on it; and the session flag is not set to DataActive: it keeps
  its value, which is not the data-active one in any reachable state.
\<close>

theorem logRequested_list_preempt_pending:
  assumes "list_isPreemptRequested srv"
  shows "list_reports (snd (logRequested srv p)) =
           [(False, ''Another log list request was accepted'')] \<and>
         (log_isActive srv \<longrightarrow>
            length (log_reports (snd (logRequested srv p))) = 1 \<and>
            list_all (\<lambda>(ok, why). \<not> ok \<and> sublist ''list was requested'' why)
              (log_reports (snd (logRequested srv p)))) \<and>
         state (fst (logRequested srv p)) = state p \<and>
         (reachable p \<longrightarrow> \<not> data_active (fst (logRequested srv p)))"
proof -
  have "sublist ''list was requested'' ''Log list was requested''"
    by code_simp
  with assms show ?thesis
    by (auto simp add: logRequested_def data_active_def dest: reachable_idle)
qed

theorem logRequested_list_preempt_pending_witness:
  "list_isPreemptRequested srv_data_goal_racing \<and>
   log_isActive srv_data_goal_racing \<and>
   reachable initial \<and>
   snd (logRequested srv_data_goal_racing initial) =
     [Log_acceptNewGoal,
      List_setPreempted False ''Another log list request was accepted'',
      Log_setPreempted False ''Log list was requested''] \<and>
   \<not> data_active (fst (logRequested srv_data_goal_racing initial))"
proof -
  have h: "list_isPreemptRequested srv_data_goal_racing"
    by (simp add: srv_data_goal_racing_def)
  have a: "log_isActive srv_data_goal_racing"
    by (simp add: srv_data_goal_racing_def)
  have r: "reachable initial"
    by (rule reachable_initial)
  have cs: "snd (logRequested srv_data_goal_racing initial) =
     [Log_acceptNewGoal,
      List_setPreempted False ''Another log list request was accepted'',
      Log_setPreempted False ''Log list was requested'']"
    by (simp add: logRequested_def srv_data_goal_racing_def)
  show ?thesis
    using h a r cs logRequested_list_preempt_pending [OF h, of initial] by simp
qed

text \<open>
  Claim C8 says that both goal callbacks log and ignore a null goal. The list callback
  does (\<open>logListRequested_null\<close>). The data callback has no null check: when
  \<^verbatim>\<open>acceptNewGoal\<close> returns null while the list server has a preemption pending, it
  writes nothing to the console and still reports the list goal preempted.
\<close>

theorem logRequested_null_goal_reported:
  "log_acceptNewGoal srv_null_data_goal = None \<and>
   logged (snd (logRequested srv_null_data_goal initial)) = [] \<and>
   list_reports (snd (logRequested srv_null_data_goal initial)) =
     [(False, ''Another log list request was accepted'')]"
  by (simp add: srv_null_data_goal_def logRequested_def)

subsection \<open>Invariants of the plugin\<close>

text \<open>
  Claim C3: in every state reached from a reachable plugin (in particular from the
  constructed one) by any sequence of packet, goal, preempt and service events, the
  session flag is not both the list-active and the data-active value. The handlers keep
  more than that: the only write to the flag in any of them stores \<open>Idle\<close>, so after
  every sequence of events the flag is \<open>Idle\<close> and neither of the two holds.
\<close>

theorem flag_never_both:
  assumes "reachable p"
  shows "\<not> (list_active (run es p) \<and> data_active (run es p)) \<and>
         state (run es p) = Idle \<and>
         \<not> list_active (run es p) \<and> \<not> data_active (run es p)"
proof -
  have "reachable (run es p)"
    using assms by (rule reachable_run)
  then have "state (run es p) = Idle"
    by (simp add: reachable_idle)
  then show ?thesis
    by (simp add: list_active_def data_active_def)
qed

theorem flag_never_both_witness:
  "reachable initial \<and>
   run [Log_goal srv_data_goal, Log_data_packet 0 packet_200,
        List_goal uas_ok srv_list_over_data, Request_end uas_full, Log_preempt,
        Log_goal srv_data_goal_racing, List_goal uas_full srv_list_superseded,
        List_preempt] initial = initial \<and>
   \<not> (list_active (run [Log_goal srv_data_goal, Log_data_packet 0 packet_200,
                         List_goal uas_ok srv_list_over_data, Request_end uas_full,
                         Log_preempt, Log_goal srv_data_goal_racing,
                         List_goal uas_full srv_list_superseded, List_preempt] initial) \<and>
      data_active (run [Log_goal srv_data_goal, Log_data_packet 0 packet_200,
                        List_goal uas_ok srv_list_over_data, Request_end uas_full,
                        Log_preempt, Log_goal srv_data_goal_racing,
                        List_goal uas_full srv_list_superseded, List_preempt] initial))"
proof -
  let ?es = "[Log_goal srv_data_goal, Log_data_packet 0 packet_200,
              List_goal uas_ok srv_list_over_data, Request_end uas_full, Log_preempt,
              Log_goal srv_data_goal_racing, List_goal uas_full srv_list_superseded,
              List_preempt]"
  have h: "reachable initial"
    by (rule reachable_initial)
  have r: "run ?es initial = initial"
    by (simp add: logListRequested_plugin logRequested_def handle_log_data_def
          log_request_end_cb_def stopLogTransfer_def send_message_def
          logListRequestPreempted_def logRequestPreempted_def
          srv_list_over_data_def srv_list_superseded_def uas_full_def initial_def)
  show ?thesis
    using h r flag_never_both [OF h, of ?es] by simp
qed

text \<open>
  Claim C10: \<^verbatim>\<open>logListItems\<close> is empty in the constructed plugin, every handler
  (packet, service, goal and preempt) leaves it as it found it, and so it is empty in
  every reachable state.
\<close>

theorem logListItems_stays_empty:
  "logListItems initial = [] \<and>
   logListItems (fst (dispatch e p)) = logListItems p \<and>
   (reachable p \<longrightarrow> logListItems p = [])"
  using reachable_idle [of p] dispatch_logListItems [of e p] by (simp add: initial_def)

theorem logListItems_stays_empty_witness:
  "reachable (fst (dispatch (List_goal uas_ok srv_list_over_data) initial)) \<and>
   logListItems (fst (dispatch (List_goal uas_ok srv_list_over_data) initial)) = []"
proof -
  have h: "reachable (fst (dispatch (List_goal uas_ok srv_list_over_data) initial))"
    by (intro reachable.intros)
  show ?thesis
    using h logListItems_stays_empty
              [of "List_goal uas_ok srv_list_over_data"
                  "fst (dispatch (List_goal uas_ok srv_list_over_data) initial)"]
    by simp
qed

subsection \<open>The service callbacks\<close>

text \<open>
  Claim C6: each of the three service callbacks returns normally (with \<open>true\<close> to the
  service host), hands exactly one command to the link whatever the link does with it,
  and sets the success flag of the response to false exactly when the link throws
  \<^verbatim>\<open>std::length_error\<close> for that command.
\<close>

theorem request_success_iff_sent:
  "(case log_request_list_cb uas rl p of (p', ret, res, cs) \<Rightarrow>
      ret \<and>
      (\<not> success res) =
        (send_message uas (LOG_REQUEST_LIST (target_system uas) (target_component uas)
                             (req_start rl) (req_end rl)) = Inl length_error) \<and>
      sent cs = [LOG_REQUEST_LIST (target_system uas) (target_component uas)
                   (req_start rl) (req_end rl)]) \<and>
   (case log_request_data_cb uas rd p of (p', ret, res, cs) \<Rightarrow>
      ret \<and>
      (\<not> success res) =
        (send_message uas (LOG_REQUEST_DATA (target_system uas) (target_component uas)
                             (req_id rd) (req_offset rd) (req_count rd)) = Inl length_error) \<and>
      sent cs = [LOG_REQUEST_DATA (target_system uas) (target_component uas)
                   (req_id rd) (req_offset rd) (req_count rd)]) \<and>
   (case log_request_end_cb uas p of (p', ret, res, cs) \<Rightarrow>
      ret \<and>
      (\<not> success res) =
        (send_message uas (LOG_REQUEST_END (target_system uas) (target_component uas))
           = Inl length_error) \<and>
      sent cs = [LOG_REQUEST_END (target_system uas) (target_component uas)])"
  by (simp add: log_request_list_cb_def log_request_data_cb_def log_request_end_cb_def
        stopLogTransfer_def send_message_def Let_def)

theorem request_success_iff_sent_witness:
  "log_request_data_cb uas_full \<lparr>req_id = 1, req_offset = 0, req_count = 10\<rparr> initial =
     (initial, True, \<lparr>success = False\<rparr>, [Send_message (LOG_REQUEST_DATA 1 1 1 0 10)]) \<and>
   log_request_data_cb uas_ok \<lparr>req_id = 1, req_offset = 0, req_count = 10\<rparr> initial =
     (initial, True, \<lparr>success = True\<rparr>, [Send_message (LOG_REQUEST_DATA 1 1 1 0 10)])"
proof -
  let ?rl = "\<lparr>req_start = 0, req_end = 5\<rparr>"
  let ?rd = "\<lparr>req_id = 1, req_offset = 0, req_count = 10\<rparr>"
  obtain p1 r1 s1 c1 where e1: "log_request_data_cb uas_full ?rd initial = (p1, r1, s1, c1)"
    by (cases "log_request_data_cb uas_full ?rd initial") auto
  obtain p2 r2 s2 c2 where e2: "log_request_data_cb uas_ok ?rd initial = (p2, r2, s2, c2)"
    by (cases "log_request_data_cb uas_ok ?rd initial") auto
  have "r1 \<and> \<not> success s1 \<and> sent c1 = [LOG_REQUEST_DATA 1 1 1 0 10]"
    using request_success_iff_sent [of uas_full ?rl initial ?rd] e1
    by (simp add: uas_full_def send_message_def)
  moreover have "r2 \<and> success s2 \<and> sent c2 = [LOG_REQUEST_DATA 1 1 1 0 10]"
    using request_success_iff_sent [of uas_ok ?rl initial ?rd] e2
    by (simp add: uas_ok_def send_message_def)
  moreover have "p1 = initial \<and> c1 = [Send_message (LOG_REQUEST_DATA 1 1 1 0 10)]"
    using e1 by (auto simp add: log_request_data_cb_def uas_full_def send_message_def)
  moreover have "p2 = initial \<and> c2 = [Send_message (LOG_REQUEST_DATA 1 1 1 0 10)]"
    using e2 by (auto simp add: log_request_data_cb_def uas_ok_def send_message_def)
  ultimately show ?thesis
    using e1 e2 by simp
qed

text \<open>
  Claim C9: \<^verbatim>\<open>log_request_list_cb\<close> and \<^verbatim>\<open>log_request_data_cb\<close> leave the
  session flag as it was, for every request and every plugin, whether the link takes the
  command or throws.
\<close>

theorem request_cb_keeps_flag:
  "state (fst (log_request_list_cb uas rl p)) = state p \<and>
   state (fst (log_request_data_cb uas rd p)) = state p"
  by (simp add: log_request_list_cb_def log_request_data_cb_def Let_def
        split: sum.splits exn.splits)

subsection \<open>The data packet handler\<close>

text \<open>
  Claim C7: \<^verbatim>\<open>handle_log_data\<close> publishes one message whose id and offset are the
  packet's; when the packet's count exceeds the payload capacity the message holds
  exactly capacity many bytes (the whole array), and when the count is within the
  capacity it holds exactly count bytes, the first ones of the array.
\<close>

theorem handle_log_data_clamps:
  "snd (handle_log_data now ld p) = [Publish_log_data (log_data_msg now ld)] \<and>
   data_id (log_data_msg now ld) = ld_id ld \<and>
   data_offset (log_data_msg now ld) = ld_ofs ld \<and>
   (unat (ld_count ld) > max_size (ld_data ld) \<longrightarrow>
      length (data_bytes (log_data_msg now ld)) = max_size (ld_data ld) \<and>
      data_bytes (log_data_msg now ld) = ld_data ld) \<and>
   (unat (ld_count ld) \<le> max_size (ld_data ld) \<longrightarrow>
      length (data_bytes (log_data_msg now ld)) = unat (ld_count ld) \<and>
      data_bytes (log_data_msg now ld) = take (unat (ld_count ld)) (ld_data ld))"
  by (simp add: handle_log_data_def log_data_msg_def clamp_count_def max_size_def Let_def)

theorem handle_log_data_clamps_witness:
  "unat (ld_count packet_200) = 200 \<and>
   max_size (ld_data packet_200) = 90 \<and>
   length (data_bytes (log_data_msg 0 packet_200)) = 90 \<and>
   data_id (log_data_msg 0 packet_200) = 7 \<and>
   data_offset (log_data_msg 0 packet_200) = 180"
proof -
  have h: "unat (ld_count packet_200) = 200" "length (ld_data packet_200) = 90"
    by (simp_all add: packet_200_def)
  have i: "ld_id packet_200 = 7" "ld_ofs packet_200 = 180"
    by (simp_all add: packet_200_def)
  show ?thesis
    using h i handle_log_data_clamps [of 0 packet_200 initial] by (simp add: max_size_def)
qed

end
